theory Spec2Isabelle
  imports Main
begin

section \<open>Tock: a terminal clock (src/tock.py)\<close>

subsection \<open>Python strings and integer formatting\<close>

text \<open>
  A Python \<open>str\<close> is a sequence of Unicode code points, and \<open>len\<close> counts code points.
  The program uses three characters beyond ASCII (the full block of the large digits and
  the two dots of the binary clock), which do not fit the 8-bit \<open>char\<close> of HOL, so a
  Python string is a list of code points here. \<open>ascii\<close> reads an ASCII literal.
\<close>

type_synonym pystr = "nat list"

definition ascii :: "string \<Rightarrow> pystr" where
  "ascii = map of_char"

text \<open>U+2588 FULL BLOCK, U+25CF BLACK CIRCLE, U+25CB WHITE CIRCLE.\<close>

definition FULL_BLOCK :: nat where
  "FULL_BLOCK = 0x2588"

definition BLACK_CIRCLE :: nat where
  "BLACK_CIRCLE = 0x25CF"

definition WHITE_CIRCLE :: nat where
  "WHITE_CIRCLE = 0x25CB"

text \<open>The character of a digit value: \<open>'0'\<close> is code point 48.\<close>

definition digit :: "nat \<Rightarrow> nat" where
  "digit d = 48 + d"

text \<open>The digits of a natural number in base 10 and in base 2, most significant first.\<close>

fun dec_nat :: "nat \<Rightarrow> pystr" where
  "dec_nat n = (if n < 10 then [digit n] else dec_nat (n div 10) @ [digit (n mod 10)])"

fun bin_nat :: "nat \<Rightarrow> pystr" where
  "bin_nat n = (if n < 2 then [digit n] else bin_nat (n div 2) @ [digit (n mod 2)])"

declare dec_nat.simps [simp del] bin_nat.simps [simp del]

text \<open>\<open>str(n)\<close> for a Python int.\<close>

definition str :: "int \<Rightarrow> pystr" where
  "str n = (if n < 0 then ascii ''-'' else []) @ dec_nat (nat \<bar>n\<bar>)"

text \<open>
  The format specifications \<open>02d\<close> and \<open>06b\<close>: the sign, then zeros up to the minimum
  width, then the digits. A number with more digits than the width is not truncated.
\<close>

definition zero_pad :: "nat \<Rightarrow> int \<Rightarrow> pystr \<Rightarrow> pystr" where
  "zero_pad width n ds =
     (let sign = (if n < 0 then ascii ''-'' else [])
      in sign @ replicate (width - length sign - length ds) (digit 0) @ ds)"

definition format_02d :: "int \<Rightarrow> pystr" where
  "format_02d n = zero_pad 2 n (dec_nat (nat \<bar>n\<bar>))"

definition format_06b :: "int \<Rightarrow> pystr" where
  "format_06b n = zero_pad 6 n (bin_nat (nat \<bar>n\<bar>))"

text \<open>The f-string \<open>f"{h:02d}:{m:02d}:{s:02d}"\<close> of both the digital and the simple clock.\<close>

definition time_str :: "int \<Rightarrow> int \<Rightarrow> int \<Rightarrow> pystr" where
  "time_str h m s = format_02d h @ ascii '':'' @ format_02d m @ ascii '':'' @ format_02d s"

datatype py_error = IndexError

subsection \<open>The glyph table \<open>self.digits\<close>\<close>

text \<open>
  The rows of the glyphs are written with \<open>#\<close> for the full block; \<open>art\<close> puts the
  block back.
\<close>

definition art :: "string \<Rightarrow> pystr" where
  "art = map (\<lambda>c. if c = CHR ''#'' then FULL_BLOCK else of_char c)"

definition glyph_0 :: "pystr list" where
  "glyph_0 = map art
     ['' #### '',
      ''#    #'',
      ''#    #'',
      ''#    #'',
      ''#    #'',
      '' #### '']"

definition glyph_1 :: "pystr list" where
  "glyph_1 = map art
     [''  #   '',
      '' ##   '',
      ''  #   '',
      ''  #   '',
      ''  #   '',
      '' #### '']"

definition glyph_2 :: "pystr list" where
  "glyph_2 = map art
     ['' #### '',
      ''#    #'',
      ''     #'',
      ''    # '',
      ''   #  '',
      '' #####'']"

definition glyph_3 :: "pystr list" where
  "glyph_3 = map art
     ['' #### '',
      ''     #'',
      ''  ### '',
      ''     #'',
      ''     #'',
      '' #### '']"

definition glyph_4 :: "pystr list" where
  "glyph_4 = map art
     [''#     '',
      ''#  #  '',
      ''##### '',
      ''    # '',
      ''    # '',
      ''    # '']"

definition glyph_5 :: "pystr list" where
  "glyph_5 = map art
     ['' #####'',
      ''#     '',
      ''##### '',
      ''     #'',
      ''     #'',
      '' #### '']"

definition glyph_6 :: "pystr list" where
  "glyph_6 = map art
     ['' #### '',
      ''#     '',
      ''##### '',
      ''#    #'',
      ''#    #'',
      '' #### '']"

definition glyph_7 :: "pystr list" where
  "glyph_7 = map art
     ['' #####'',
      ''     #'',
      ''    # '',
      ''   #  '',
      ''  #   '',
      ''  #   '']"

definition glyph_8 :: "pystr list" where
  "glyph_8 = map art
     ['' #### '',
      ''#    #'',
      '' #### '',
      ''#    #'',
      ''#    #'',
      '' #### '']"

definition glyph_9 :: "pystr list" where
  "glyph_9 = map art
     ['' #### '',
      ''#    #'',
      '' #####'',
      ''     #'',
      ''     #'',
      '' #### '']"

definition glyph_colon :: "pystr list" where
  "glyph_colon = map art
     [''      '',
      ''  ##  '',
      ''  ##  '',
      ''  ##  '',
      ''  ##  '',
      ''      '']"

text \<open>The dictionary, keyed by the character (code points 48 to 57 and 58).\<close>

definition digits :: "nat \<rightharpoonup> pystr list" where
  "digits = map_of
     [(digit 0, glyph_0), (digit 1, glyph_1), (digit 2, glyph_2), (digit 3, glyph_3),
      (digit 4, glyph_4), (digit 5, glyph_5), (digit 6, glyph_6), (digit 7, glyph_7),
      (digit 8, glyph_8), (digit 9, glyph_9), (58, glyph_colon)]"

text \<open>\<open>self.digits.get(char, self.digits['0'])\<close>\<close>

definition digits_get :: "nat \<Rightarrow> pystr list" where
  "digits_get char = (case digits char of Some char_lines \<Rightarrow> char_lines | None \<Rightarrow> glyph_0)"

subsection \<open>The four renderers\<close>

text \<open>
  \<open>draw_digital_clock\<close>: the inner loop \<open>for i, line in enumerate(char_lines):
  lines[i] += line + '  '\<close>, from index \<open>i\<close> on. Python raises \<open>IndexError\<close> when a
  glyph has more rows than \<open>lines\<close>.
\<close>

fun add_char_lines :: "pystr list \<Rightarrow> nat \<Rightarrow> pystr list \<Rightarrow> py_error + pystr list" where
  "add_char_lines lines i [] = Inr lines"
| "add_char_lines lines i (line # char_lines) =
     (if i < length lines
      then add_char_lines (lines[i := lines ! i @ line @ ascii ''  '']) (Suc i) char_lines
      else Inl IndexError)"

text \<open>The outer loop \<open>for char in time_str\<close>.\<close>

fun add_chars :: "pystr list \<Rightarrow> pystr \<Rightarrow> py_error + pystr list" where
  "add_chars lines [] = Inr lines"
| "add_chars lines (char # rest) =
     (case add_char_lines lines 0 (digits_get char) of
        Inl e \<Rightarrow> Inl e
      | Inr lines' \<Rightarrow> add_chars lines' rest)"

definition draw_digital_clock :: "int \<Rightarrow> int \<Rightarrow> int \<Rightarrow> py_error + pystr list" where
  "draw_digital_clock h m s = add_chars (replicate 6 []) (time_str h m s)"

definition draw_simple_clock :: "int \<Rightarrow> int \<Rightarrow> int \<Rightarrow> pystr list" where
  "draw_simple_clock h m s = [time_str h m s]"

text \<open>
  \<open>draw_binary_clock\<close>: the inner loop over the bits appends a dot and a space to the
  label; the outer loop appends the value line, the ruler and an empty line per value;
  \<open>lines[:-1]\<close> drops the last line.
\<close>

definition add_bit :: "nat \<Rightarrow> pystr \<Rightarrow> pystr" where
  "add_bit b line =
     (if b = digit 1 then line @ [BLACK_CIRCLE] @ ascii '' ''
      else line @ [WHITE_CIRCLE] @ ascii '' '')"

text \<open>\<open>sep.join(xs)\<close>\<close>

fun join :: "pystr \<Rightarrow> pystr list \<Rightarrow> pystr" where
  "join sep [] = []"
| "join sep [x] = x"
| "join sep (x # y # ys) = x @ sep @ join sep (y # ys)"

definition ruler :: pystr where
  "ruler = ascii ''  '' @ join (ascii ''  '') (map ascii [''6'', ''5'', ''4'', ''3'', ''2'', ''1''])"

definition add_value :: "int \<times> pystr \<Rightarrow> pystr list \<Rightarrow> pystr list" where
  "add_value = (\<lambda>(val, label) lines.
     (let bits = format_06b val;
          line = fold add_bit bits label
      in lines @ [line] @ [ruler] @ [[]]))"

definition draw_binary_clock :: "int \<Rightarrow> int \<Rightarrow> int \<Rightarrow> pystr list" where
  "draw_binary_clock h m s =
     (let hours = h mod 24;
          minutes = m;
          seconds = s;
          labels = map ascii [''H '', ''M '', ''S ''];
          lines = fold add_value (zip [hours, minutes, seconds] labels) []
      in butlast lines)"

text \<open>
  The words clock. The source names the two helpers \<open>_number_to_words\<close> and
  \<open>_minutes_to_words\<close>; an Isabelle name cannot start with an underscore.
\<close>

definition words :: "int \<rightharpoonup> pystr" where
  "words = map_of
     [(1, ascii ''ONE''), (2, ascii ''TWO''), (3, ascii ''THREE''), (4, ascii ''FOUR''),
      (5, ascii ''FIVE''), (6, ascii ''SIX''), (7, ascii ''SEVEN''), (8, ascii ''EIGHT''),
      (9, ascii ''NINE''), (10, ascii ''TEN''), (11, ascii ''ELEVEN''), (12, ascii ''TWELVE'')]"

definition number_to_words :: "int \<Rightarrow> pystr" where
  "number_to_words n = (case words n of Some w \<Rightarrow> w | None \<Rightarrow> str n)"

definition minutes_to_words :: "int \<Rightarrow> pystr" where
  "minutes_to_words m =
     (if m = 1 then ascii ''ONE''
      else if m = 15 then ascii ''FIFTEEN''
      else if m = 30 then ascii ''THIRTY''
      else if m = 45 then ascii ''FORTY-FIVE''
      else if m < 30 then number_to_words m
      else (let ones = number_to_words (m - 40) in ascii ''FORTY-'' @ ones))"

text \<open>\<open>h % 12 or 12\<close> is 12 when the remainder is 0. Python's \<open>%\<close> with a positive
  divisor is \<open>mod\<close> on \<open>int\<close>.\<close>

definition draw_words_clock :: "int \<Rightarrow> int \<Rightarrow> int \<Rightarrow> pystr list" where
  "draw_words_clock h m s =
     (let hours_word = number_to_words (if h mod 12 = 0 then 12 else h mod 12);
          minutes_word = minutes_to_words m
      in if m = 0 then [hours_word @ ascii '' O'CLOCK'']
         else [hours_word @ ascii '' '' @ minutes_word])"

subsection \<open>The application state and the display loop\<close>

text \<open>
  The fields of \<open>TockClock\<close> that change. \<open>styles\<close> and \<open>digits\<close> are never assigned
  after \<open>__init__\<close> and are constants here; \<open>stdscr\<close> is the terminal, whose part is played by
  the list of screen operations a tick emits and by what each tick reads from it.
\<close>

record tock_clock =
  current_style :: int
  show_footer :: bool
  running :: bool

definition init :: tock_clock where
  "init = \<lparr>current_style = 0, show_footer = True, running = True\<rparr>"

definition styles :: "pystr list" where
  "styles = map ascii [''digital'', ''simple'', ''binary'', ''words'']"

text \<open>\<open>xs[i]\<close>: a negative index counts from the end, an index out of range raises.\<close>

definition py_index :: "'a list \<Rightarrow> int \<Rightarrow> py_error + 'a" where
  "py_index xs i =
     (if 0 \<le> i \<and> i < int (length xs) then Inr (xs ! nat i)
      else if - int (length xs) \<le> i \<and> i < 0 then Inr (xs ! nat (int (length xs) + i))
      else Inl IndexError)"

text \<open>\<open>get_clock_display\<close>, with the time that \<open>get_current_time\<close> read as an argument.\<close>

definition get_clock_display :: "tock_clock \<Rightarrow> int \<times> int \<times> int \<Rightarrow> py_error + pystr list" where
  "get_clock_display self = (\<lambda>(h, m, s).
     (case py_index styles (current_style self) of
        Inl e \<Rightarrow> Inl e
      | Inr style \<Rightarrow>
          if style = ascii ''digital'' then draw_digital_clock h m s
          else if style = ascii ''simple'' then Inr (draw_simple_clock h m s)
          else if style = ascii ''binary'' then Inr (draw_binary_clock h m s)
          else if style = ascii ''words'' then Inr (draw_words_clock h m s)
          else Inr (draw_simple_clock h m s)))"

text \<open>
  What a tick does to the screen. \<open>addstr\<close> may fail with \<open>curses.error\<close> when the
  text does not fit; the program ignores that, so the operation is emitted either way.
\<close>

datatype screen_op = Clear | AddStr int int pystr | Refresh

definition draw_centered :: "int \<times> int \<Rightarrow> pystr list \<Rightarrow> screen_op list" where
  "draw_centered = (\<lambda>(height, width) text_lines.
     (let start_y = (height - int (length text_lines)) div 2
      in map (\<lambda>(i, line). AddStr (start_y + int i) ((width - int (length line)) div 2) line)
           (enumerate 0 text_lines)))"

definition draw_footer :: "tock_clock \<Rightarrow> int \<times> int \<Rightarrow> screen_op list" where
  "draw_footer self = (\<lambda>(height, width).
     if \<not> show_footer self then []
     else (let footer_text = ascii ''H - hide  Arrow - change style'';
               x = (width - int (length footer_text)) div 2
           in [AddStr (height - 2) x footer_text]))"

text \<open>
  The key codes of curses (\<open>KEY_LEFT\<close> is 0o404, \<open>KEY_RIGHT\<close> is 0o405) and \<open>ord\<close> of the
  four letters. \<open>getch\<close> gives \<open>-1\<close> when no key was pressed within the delay.
\<close>

definition KEY_LEFT :: int where
  "KEY_LEFT = 260"

definition KEY_RIGHT :: int where
  "KEY_RIGHT = 261"

definition ord :: "char \<Rightarrow> int" where
  "ord c = of_char c"

definition handle_input :: "tock_clock \<Rightarrow> int \<Rightarrow> tock_clock" where
  "handle_input self key =
     (if key = KEY_LEFT
      then self\<lparr>current_style := (current_style self - 1) mod int (length styles)\<rparr>
      else if key = KEY_RIGHT
      then self\<lparr>current_style := (current_style self + 1) mod int (length styles)\<rparr>
      else if key = ord CHR ''h'' \<or> key = ord CHR ''H''
      then self\<lparr>show_footer := \<not> show_footer self\<rparr>
      else if key = ord CHR ''q'' \<or> key = ord CHR ''Q''
      then self\<lparr>running := False\<rparr>
      else self)"

text \<open>
  What one tick reads from outside: the clock, the size of the screen and the key.
\<close>

record tick_env =
  now :: "int \<times> int \<times> int"
  maxyx :: "int \<times> int"
  getch :: int

text \<open>
  The body of the \<open>while self.running\<close> loop: the screen operations of the tick, and
  the state after \<open>handle_input\<close> or the exception that \<open>get_clock_display\<close> raised,
  which comes after \<open>clear\<close>. The two delays (\<open>halfdelay\<close>, \<open>sleep\<close>) change no state
  and have no counterpart here.
\<close>

definition tick :: "tock_clock \<Rightarrow> tick_env \<Rightarrow> screen_op list \<times> (py_error + tock_clock)" where
  "tick self env =
     (case get_clock_display self (now env) of
        Inl e \<Rightarrow> ([Clear], Inl e)
      | Inr display_lines \<Rightarrow>
          ([Clear] @ draw_centered (maxyx env) display_lines
             @ draw_footer self (maxyx env) @ [Refresh],
           Inr (handle_input self (getch env))))"

text \<open>
  The loop of \<open>run\<close> over the environments of the coming ticks. It gives the screen
  operations of every tick it ran, one list per tick, and how it ended: with \<open>running\<close>
  false, or with an exception, which leaves the loop through \<open>finally\<close>. The real loop
  runs until the user quits, so on a finite list of environments it may still be running
  when the list ends; that is \<open>None\<close>.
\<close>

datatype ending = Stopped tock_clock | Raised py_error

fun run_loop :: "tock_clock \<Rightarrow> tick_env list \<Rightarrow> (screen_op list list \<times> ending) option" where
  "run_loop self envs =
     (if \<not> running self then Some ([], Stopped self)
      else case envs of
        [] \<Rightarrow> None
      | env # rest \<Rightarrow>
          (case tick self env of
             (ops, Inl e) \<Rightarrow> Some ([ops], Raised e)
           | (ops, Inr self') \<Rightarrow>
               (case run_loop self' rest of
                  None \<Rightarrow> None
                | Some (frames, e) \<Rightarrow> Some (ops # frames, e))))"

declare run_loop.simps [simp del]

subsection \<open>Notions of the specification\<close>

text \<open>A valid time of day.\<close>

definition valid_time :: "int \<Rightarrow> int \<Rightarrow> int \<Rightarrow> bool" where
  "valid_time h m s \<longleftrightarrow> 0 \<le> h \<and> h \<le> 23 \<and> 0 \<le> m \<and> m \<le> 59 \<and> 0 \<le> s \<and> s \<le> 59"

text \<open>The zero-padded string \<open>HH:MM:SS\<close>, written digit by digit.\<close>

definition two_digits :: "int \<Rightarrow> pystr" where
  "two_digits n = [digit (nat (n div 10)), digit (nat (n mod 10))]"

definition hhmmss :: "int \<Rightarrow> int \<Rightarrow> int \<Rightarrow> pystr" where
  "hhmmss h m s = two_digits h @ [58] @ two_digits m @ [58] @ two_digits s"

text \<open>
  Reading a line of the binary clock back: the dots of the line in order, a filled dot
  as 1 and a hollow dot as 0, as a binary number with the most significant bit first.
\<close>

definition dots :: "pystr \<Rightarrow> bool list" where
  "dots line = map (\<lambda>c. c = BLACK_CIRCLE) (filter (\<lambda>c. c = BLACK_CIRCLE \<or> c = WHITE_CIRCLE) line)"

definition decode_msb :: "bool list \<Rightarrow> int" where
  "decode_msb bs = foldl (\<lambda>acc b. 2 * acc + (if b then 1 else 0)) 0 bs"

text \<open>The English words of 1 to 12, the hour by the 12-hour convention.\<close>

definition english :: "pystr list" where
  "english = map ascii [''ONE'', ''TWO'', ''THREE'', ''FOUR'', ''FIVE'', ''SIX'', ''SEVEN'',
     ''EIGHT'', ''NINE'', ''TEN'', ''ELEVEN'', ''TWELVE'']"

definition hour12 :: "int \<Rightarrow> int" where
  "hour12 h = (if h = 0 then 12 else if 13 \<le> h then h - 12 else h)"

definition hour_word :: "int \<Rightarrow> pystr" where
  "hour_word h = english ! nat (hour12 h - 1)"

text \<open>
  The two characters that \<open>draw_binary_clock\<close> appends for one bit, and whether the bit is
  the character \<open>1\<close>.
\<close>

definition filled :: "nat \<Rightarrow> bool" where
  "filled b \<longleftrightarrow> b = digit 1"

definition dot :: "nat \<Rightarrow> pystr" where
  "dot b = [if filled b then BLACK_CIRCLE else WHITE_CIRCLE, 32]"

text \<open>
  Row \<open>i\<close> of the glyph of a character, and two ways to put the rows of a string side by
  side: every glyph row followed by two spaces, or two spaces between consecutive glyph
  rows only.
\<close>

definition glyph_row :: "nat \<Rightarrow> nat \<Rightarrow> pystr" where
  "glyph_row i char = digits_get char ! i"

definition spaced_line :: "pystr \<Rightarrow> nat \<Rightarrow> pystr" where
  "spaced_line cs i = concat (map (\<lambda>char. glyph_row i char @ ascii ''  '') cs)"

definition joined_line :: "pystr \<Rightarrow> nat \<Rightarrow> pystr" where
  "joined_line cs i = join (ascii ''  '') (map (glyph_row i) cs)"

text \<open>Applying a function \<open>n\<close> times.\<close>

fun repeat :: "nat \<Rightarrow> ('a \<Rightarrow> 'a) \<Rightarrow> 'a \<Rightarrow> 'a" where
  "repeat 0 f x = x"
| "repeat (Suc n) f x = repeat n f (f x)"

section \<open>Properties\<close>

subsection \<open>Number words and decimal strings\<close>

lemmas eval_words = draw_words_clock_def number_to_words_def minutes_to_words_def words_def
  str_def ascii_def dec_nat.simps digit_def

lemma words_None: "n < 1 \<or> 12 < n \<Longrightarrow> words n = None"
  by (auto simp: words_def)

lemma words_Some:
  assumes "1 \<le> n" "n \<le> 12"
  shows "words n = Some (english ! nat (n - 1))"
proof -
  have "n = 12 \<or> n = 11 \<or> n = 10 \<or> n = 9 \<or> n = 8 \<or> n = 7
      \<or> n = 6 \<or> n = 5 \<or> n = 4 \<or> n = 3 \<or> n = 2 \<or> n = 1"
    using assms by arith
  then show ?thesis
    by (elim disjE) (simp_all add: words_def english_def)
qed

lemma number_to_words_table:
  "1 \<le> n \<Longrightarrow> n \<le> 12 \<Longrightarrow> number_to_words n = english ! nat (n - 1)"
  by (simp add: number_to_words_def words_Some)

lemma number_to_words_str: "n < 1 \<or> 12 < n \<Longrightarrow> number_to_words n = str n"
  by (simp add: number_to_words_def words_None)

lemma dec_nat_one: "n < 10 \<Longrightarrow> dec_nat n = [digit n]"
  by (simp add: dec_nat.simps)

lemma dec_nat_two: "10 \<le> n \<Longrightarrow> n < 100 \<Longrightarrow> dec_nat n = [digit (n div 10), digit (n mod 10)]"
  by (simp add: dec_nat.simps [of n] dec_nat_one)

lemma str_two: "10 \<le> n \<Longrightarrow> n \<le> 99 \<Longrightarrow> str n = two_digits n"
  by (simp add: str_def two_digits_def dec_nat_two nat_div_distrib nat_mod_distrib)

lemma str_neg_digit: "-9 \<le> n \<Longrightarrow> n < 0 \<Longrightarrow> str n = ascii ''-'' @ [digit (nat (- n))]"
  by (simp add: str_def dec_nat_one)

text \<open>The hour word of the source is the word of the 12-hour convention.\<close>

lemma hours_word:
  assumes "0 \<le> h" "h \<le> 23"
  shows "number_to_words (if h mod 12 = 0 then 12 else h mod 12) = hour_word h"
proof (cases "h mod 12 = 0")
  case True
  with assms have "h = 0 \<or> h = 12" by presburger
  then show ?thesis
    using True by (auto simp: hour_word_def hour12_def number_to_words_table)
next
  case False
  have m: "1 \<le> h mod 12" "h mod 12 \<le> 12"
    using False pos_mod_sign [of 12 h] pos_mod_bound [of 12 h] by linarith+
  have "h mod 12 = hour12 h"
    using assms False unfolding hour12_def by presburger
  then show ?thesis
    using False m by (simp add: hour_word_def number_to_words_table)
qed

lemma minutes_else:
  "30 < m \<Longrightarrow> m \<noteq> 45 \<Longrightarrow> minutes_to_words m = ascii ''FORTY-'' @ number_to_words (m - 40)"
  by (simp add: minutes_to_words_def)

subsection \<open>The words clock\<close>

text \<open>
  C1 as stated fails: at hour 5, minute 54 the words clock does not give
  \<open>FIVE FORTY-FOURTEEN\<close>. The table of \<open>_number_to_words\<close> ends at 12 and has no
  \<open>FOURTEEN\<close>; the lookup falls back to \<open>str(14)\<close>.
\<close>

theorem words_5_54_not_forty_fourteen:
  "draw_words_clock 5 54 0 \<noteq> [ascii ''FIVE FORTY-FOURTEEN'']"
  by (simp add: eval_words)

text \<open>
  C1, amended: for every minute \<open>m\<close> in 31 to 44 and 46 to 59 the minute phrase is
  \<open>FORTY-\<close> followed by what \<open>_number_to_words\<close> gives for \<open>m - 40\<close>: the English word
  when \<open>m - 40\<close> is between 1 and 12 (minutes 41 to 44 and 46 to 52), and the decimal
  string of \<open>m - 40\<close> otherwise (two digits for 53 to 59, \<open>0\<close> for 40, a minus sign and a
  digit for 31 to 39). Minute 53 gives \<open>FORTY-13\<close>, and hour 5, minute 54 gives the single
  line \<open>FIVE FORTY-14\<close>.
\<close>

theorem minutes_over_30_phrase:
  assumes "31 \<le> m" "m \<le> 59" "m \<noteq> 45"
  shows "minutes_to_words m = ascii ''FORTY-'' @
           (if 41 \<le> m \<and> m \<le> 52 then english ! nat (m - 41)
            else if 53 \<le> m then two_digits (m - 40)
            else if m = 40 then ascii ''0''
            else ascii ''-'' @ [digit (nat (40 - m))])
         \<and> minutes_to_words 53 = ascii ''FORTY-13''
         \<and> draw_words_clock 5 54 s = [ascii ''FIVE FORTY-14'']"
proof -
  have gen: "minutes_to_words m = ascii ''FORTY-'' @ number_to_words (m - 40)"
    using assms by (simp add: minutes_else)
  have "number_to_words (m - 40) = english ! nat (m - 41)" if "41 \<le> m" "m \<le> 52"
    using that number_to_words_table [of "m - 40"] by (simp add: algebra_simps)
  moreover have "number_to_words (m - 40) = two_digits (m - 40)" if "53 \<le> m"
    using that assms by (simp add: number_to_words_str str_two)
  moreover have "number_to_words (m - 40) = ascii ''0''" if "m = 40"
    using that by (simp add: number_to_words_str str_def dec_nat_one digit_def ascii_def)
  moreover have "number_to_words (m - 40) = ascii ''-'' @ [digit (nat (40 - m))]" if "m < 40"
    using that assms by (simp add: number_to_words_str str_neg_digit)
  ultimately have "minutes_to_words m = ascii ''FORTY-'' @
           (if 41 \<le> m \<and> m \<le> 52 then english ! nat (m - 41)
            else if 53 \<le> m then two_digits (m - 40)
            else if m = 40 then ascii ''0''
            else ascii ''-'' @ [digit (nat (40 - m))])"
    using gen assms by auto
  moreover have "minutes_to_words 53 = ascii ''FORTY-13''"
    by (simp add: eval_words)
  moreover have "draw_words_clock 5 54 s = [ascii ''FIVE FORTY-14'']"
    by (simp add: eval_words)
  ultimately show ?thesis by blast
qed

theorem minutes_over_30_phrase_witness:
  "(31::int) \<le> 54 \<and> (54::int) \<le> 59 \<and> (54::int) \<noteq> 45
   \<and> minutes_to_words 54 = ascii ''FORTY-14''
   \<and> draw_words_clock 5 54 0 = [ascii ''FIVE FORTY-14'']"
  using minutes_over_30_phrase [of 54 0] by (simp add: two_digits_def ascii_def digit_def)

text \<open>
  C6: for every hour from 0 to 23 the words clock gives exactly one line, the hour word
  of the 12-hour convention (hour 0 is \<open>TWELVE\<close>, hours 13 to 23 are \<open>ONE\<close> to
  \<open>ELEVEN\<close>) followed by \<open>O'CLOCK\<close> at minute 0 and by the minute phrase otherwise; and
  the four examples of the specification.
\<close>

theorem words_clock_hour_12h:
  assumes "0 \<le> h" "h \<le> 23"
  shows "draw_words_clock h m s =
           [hour_word h @ (if m = 0 then ascii '' O'CLOCK'' else ascii '' '' @ minutes_to_words m)]
         \<and> length (draw_words_clock h m s) = 1
         \<and> hour_word h = (if h = 0 then ascii ''TWELVE''
                          else if 13 \<le> h then english ! nat (h - 13)
                          else english ! nat (h - 1))
         \<and> draw_words_clock 0 0 s = [ascii ''TWELVE O'CLOCK'']
         \<and> draw_words_clock 13 15 s = [ascii ''ONE FIFTEEN'']
         \<and> draw_words_clock 9 45 s = [ascii ''NINE FORTY-FIVE'']
         \<and> draw_words_clock 5 1 s = [ascii ''FIVE ONE'']"
proof -
  have "draw_words_clock h m s =
           [hour_word h @ (if m = 0 then ascii '' O'CLOCK'' else ascii '' '' @ minutes_to_words m)]"
    using hours_word [OF assms] by (simp add: draw_words_clock_def)
  moreover have "length (draw_words_clock h m s) = 1"
    by (simp add: draw_words_clock_def Let_def)
  moreover have "hour_word h = (if h = 0 then ascii ''TWELVE''
                          else if 13 \<le> h then english ! nat (h - 13)
                          else english ! nat (h - 1))"
    by (simp add: hour_word_def hour12_def english_def)
  moreover have "draw_words_clock 0 0 s = [ascii ''TWELVE O'CLOCK'']"
    by (simp add: eval_words)
  moreover have "draw_words_clock 13 15 s = [ascii ''ONE FIFTEEN'']"
    by (simp add: eval_words)
  moreover have "draw_words_clock 9 45 s = [ascii ''NINE FORTY-FIVE'']"
    by (simp add: eval_words)
  moreover have "draw_words_clock 5 1 s = [ascii ''FIVE ONE'']"
    by (simp add: eval_words)
  ultimately show ?thesis by blast
qed

theorem words_clock_hour_12h_witness:
  "(0::int) \<le> 23 \<and> (23::int) \<le> 23
   \<and> draw_words_clock 23 0 0 = [ascii ''ELEVEN O'CLOCK'']
   \<and> hour_word 23 = ascii ''ELEVEN''"
  using words_clock_hour_12h [of 23 0 0] by (simp add: english_def ascii_def)

text \<open>
  C9: for every minute \<open>m\<close> in 13, 14 and 16 to 29 the minute phrase is the decimal
  numeral of \<open>m\<close>, whatever the hour, so the line is the hour word, a space and the two
  digits of \<open>m\<close>; hour 5, minute 13 gives \<open>FIVE 13\<close>.
\<close>

theorem minutes_13_29_decimal:
  assumes "m = 13 \<or> m = 14 \<or> (16 \<le> m \<and> m \<le> 29)"
  shows "minutes_to_words m = two_digits m
         \<and> (0 \<le> h \<and> h \<le> 23 \<longrightarrow>
              draw_words_clock h m s = [hour_word h @ ascii '' '' @ two_digits m])
         \<and> draw_words_clock 5 13 s = [ascii ''FIVE 13'']"
proof -
  have mw: "minutes_to_words m = two_digits m"
    using assms by (auto simp: minutes_to_words_def number_to_words_str str_two)
  moreover have "draw_words_clock h m s = [hour_word h @ ascii '' '' @ two_digits m]"
    if "0 \<le> h" "h \<le> 23"
    using hours_word [OF that] mw assms by (auto simp: draw_words_clock_def)
  moreover have "draw_words_clock 5 13 s = [ascii ''FIVE 13'']"
    by (simp add: eval_words)
  ultimately show ?thesis by blast
qed

theorem minutes_13_29_decimal_witness:
  "minutes_to_words 13 = ascii ''13'' \<and> draw_words_clock 17 13 0 = [ascii ''FIVE 13'']"
  using minutes_13_29_decimal [of 13 17 0]
  by (simp add: two_digits_def hour_word_def hour12_def english_def ascii_def digit_def)

text \<open>
  C10: for every minute \<open>m\<close> in 31 to 39 the minute phrase is \<open>FORTY-\<close> followed by the
  decimal string of the negative number \<open>m - 40\<close>, a minus sign and the digit \<open>40 - m\<close>,
  whatever the hour; minute 31 gives \<open>FORTY--9\<close>.
\<close>

theorem minutes_31_39_negative:
  assumes "31 \<le> m" "m \<le> 39"
  shows "minutes_to_words m = ascii ''FORTY-'' @ ascii ''-'' @ [digit (nat (40 - m))]
         \<and> (0 \<le> h \<and> h \<le> 23 \<longrightarrow>
              draw_words_clock h m s =
                [hour_word h @ ascii '' '' @ ascii ''FORTY-'' @ ascii ''-'' @ [digit (nat (40 - m))]])
         \<and> minutes_to_words 31 = ascii ''FORTY--9''"
proof -
  have mw: "minutes_to_words m = ascii ''FORTY-'' @ ascii ''-'' @ [digit (nat (40 - m))]"
    using assms by (simp add: minutes_else number_to_words_str str_neg_digit)
  moreover have "draw_words_clock h m s =
                [hour_word h @ ascii '' '' @ ascii ''FORTY-'' @ ascii ''-'' @ [digit (nat (40 - m))]]"
    if "0 \<le> h" "h \<le> 23"
    using hours_word [OF that] mw assms by (auto simp: draw_words_clock_def)
  moreover have "minutes_to_words 31 = ascii ''FORTY--9''"
    by (simp add: eval_words)
  ultimately show ?thesis by blast
qed

theorem minutes_31_39_negative_witness:
  "(31::int) \<le> 35 \<and> (35::int) \<le> 39 \<and> minutes_to_words 35 = ascii ''FORTY--5''
   \<and> draw_words_clock 0 35 0 = [ascii ''TWELVE FORTY--5'']"
  using minutes_31_39_negative [of 35 0 0]
  by (simp add: hour_word_def hour12_def english_def ascii_def digit_def)

subsection \<open>The simple clock\<close>

lemma format_02d_two: "0 \<le> n \<Longrightarrow> n \<le> 99 \<Longrightarrow> format_02d n = two_digits n"
proof (cases "n < 10")
  case True
  assume "0 \<le> n" "n \<le> 99"
  with True show ?thesis
    by (simp add: format_02d_def zero_pad_def two_digits_def dec_nat_one)
next
  case False
  assume "0 \<le> n" "n \<le> 99"
  with False show ?thesis
    by (simp add: format_02d_def zero_pad_def two_digits_def dec_nat_two
        nat_div_distrib nat_mod_distrib)
qed

lemma time_str_valid: "valid_time h m s \<Longrightarrow> time_str h m s = hhmmss h m s"
  by (simp add: valid_time_def time_str_def hhmmss_def format_02d_two ascii_def)

text \<open>
  C5: for every time with \<open>0 \<le> h \<le> 23\<close>, \<open>0 \<le> m \<le> 59\<close>, \<open>0 \<le> s \<le> 59\<close> the simple clock
  gives exactly one line, the zero-padded string \<open>HH:MM:SS\<close>.
\<close>

theorem simple_clock_line:
  assumes "0 \<le> h" "h \<le> 23" "0 \<le> m" "m \<le> 59" "0 \<le> s" "s \<le> 59"
  shows "draw_simple_clock h m s = [hhmmss h m s] \<and> length (draw_simple_clock h m s) = 1"
  using assms time_str_valid [of h m s] by (simp add: draw_simple_clock_def valid_time_def)

theorem simple_clock_line_witness:
  "draw_simple_clock 7 5 59 = [ascii ''07:05:59'']"
  using simple_clock_line [of 7 5 59] by (simp add: hhmmss_def two_digits_def ascii_def digit_def)

subsection \<open>The binary clock\<close>

lemma fold_add_bit: "fold add_bit bits line = line @ concat (map dot bits)"
  by (induction bits arbitrary: line) (simp_all add: add_bit_def dot_def filled_def ascii_def)

lemma ruler_eq: "ruler = ascii ''  6  5  4  3  2  1''"
  by (simp add: ruler_def ascii_def)

lemma binary_lines:
  "draw_binary_clock h m s =
     [ascii ''H '' @ concat (map dot (format_06b (h mod 24))), ruler, [],
      ascii ''M '' @ concat (map dot (format_06b m)), ruler, [],
      ascii ''S '' @ concat (map dot (format_06b s)), ruler]"
  by (simp add: draw_binary_clock_def add_value_def fold_add_bit)

text \<open>
  C2 as stated fails: the line after a value line is not \<open>6 5 4 3 2 1\<close>. The source
  builds the ruler as two spaces followed by the digits joined with two spaces.
\<close>

theorem binary_ruler_not_single_spaced: "draw_binary_clock 0 0 0 ! 1 \<noteq> ascii ''6 5 4 3 2 1''"
  by (simp add: binary_lines ruler_eq ascii_def)

text \<open>
  C2, amended: for every time the binary clock gives 8 lines; the lines 1, 4 and 7 start
  with the labels \<open>H\<close>, \<open>M\<close> and \<open>S\<close> and a space, and each is immediately
  followed by the ruler line, which is two spaces and then the digits 6 down to 1
  separated by two spaces.
\<close>

theorem binary_ruler_lines:
  "length (draw_binary_clock h m s) = 8
   \<and> take 2 (draw_binary_clock h m s ! 0) = ascii ''H ''
   \<and> draw_binary_clock h m s ! 1 = ascii ''  6  5  4  3  2  1''
   \<and> take 2 (draw_binary_clock h m s ! 3) = ascii ''M ''
   \<and> draw_binary_clock h m s ! 4 = ascii ''  6  5  4  3  2  1''
   \<and> take 2 (draw_binary_clock h m s ! 6) = ascii ''S ''
   \<and> draw_binary_clock h m s ! 7 = ascii ''  6  5  4  3  2  1''"
  by (simp add: binary_lines ruler_eq) (simp add: ascii_def)

lemma dots_append: "dots (xs @ ys) = dots xs @ dots ys"
  by (simp add: dots_def)

lemma dots_dot: "dots (dot b) = [filled b]"
  by (simp add: dots_def dot_def BLACK_CIRCLE_def WHITE_CIRCLE_def)

lemma dots_concat_dot: "dots (concat (map dot bits)) = map filled bits"
  by (induction bits) (simp_all add: dots_append dots_dot, simp add: dots_def)

lemma dots_label:
  "dots (ascii ''H '') = []" "dots (ascii ''M '') = []" "dots (ascii ''S '') = []"
  by (simp_all add: dots_def ascii_def BLACK_CIRCLE_def WHITE_CIRCLE_def)

lemma decode_msb_snoc: "decode_msb (bs @ [b]) = 2 * decode_msb bs + (if b then 1 else 0)"
  by (simp add: decode_msb_def)

lemma filled_digit: "filled (digit d) \<longleftrightarrow> d = 1"
  by (simp add: filled_def digit_def)

lemma decode_bin_nat: "decode_msb (map filled (bin_nat n)) = int n"
proof (induction n rule: bin_nat.induct)
  case (1 n)
  show ?case
  proof (cases "n < 2")
    case True
    then have "n = 0 \<or> n = 1" by arith
    then show ?thesis
      by (auto simp: bin_nat.simps [of 0] bin_nat.simps [of "Suc 0"] decode_msb_def
          filled_def digit_def)
  next
    case False
    have "decode_msb (map filled (bin_nat n))
        = 2 * decode_msb (map filled (bin_nat (n div 2)))
          + (if filled (digit (n mod 2)) then 1 else 0)"
      using False by (simp add: bin_nat.simps [of n] decode_msb_snoc)
    also have "\<dots> = 2 * int (n div 2) + (if n mod 2 = 1 then 1 else 0)"
      using "1.IH" False by (simp add: filled_digit)
    also have "\<dots> = int n"
      by (simp add: zdiv_int zmod_int) presburger
    finally show ?thesis .
  qed
qed

lemma decode_msb_zeros: "decode_msb (replicate k False @ bs) = decode_msb bs"
proof -
  have "foldl (\<lambda>acc b. 2 * acc + (if b then 1 else 0)) (0::int) (replicate k False) = 0"
    by (induction k) simp_all
  then show ?thesis
    by (simp add: decode_msb_def)
qed

lemma length_bin_nat: "0 < k \<Longrightarrow> n < 2 ^ k \<Longrightarrow> length (bin_nat n) \<le> k"
proof (induction n arbitrary: k rule: bin_nat.induct)
  case (1 n)
  show ?case
  proof (cases "n < 2")
    case True
    with "1.prems" show ?thesis
      by (simp add: bin_nat.simps [of n])
  next
    case False
    obtain j where k: "k = Suc j"
      using "1.prems" by (cases k) auto
    have "0 < j"
      using False "1.prems" k by (cases j) auto
    moreover have "n div 2 < 2 ^ j"
      using "1.prems" k by auto
    ultimately have "length (bin_nat (n div 2)) \<le> j"
      using "1.IH" False by simp
    then show ?thesis
      using False k by (simp add: bin_nat.simps [of n])
  qed
qed

lemma bits_6:
  assumes "0 \<le> v" "v \<le> 63"
  shows "length (format_06b v) = 6"
    and "decode_msb (map filled (format_06b v)) = v"
proof -
  have len: "length (bin_nat (nat v)) \<le> 6"
    using assms length_bin_nat [of 6 "nat v"] by simp
  have f: "format_06b v = replicate (6 - length (bin_nat (nat v))) (digit 0) @ bin_nat (nat v)"
    using assms by (simp add: format_06b_def zero_pad_def)
  show "length (format_06b v) = 6"
    using len by (simp add: f)
  have "map filled (format_06b v)
      = replicate (6 - length (bin_nat (nat v))) False @ map filled (bin_nat (nat v))"
    by (simp add: f filled_digit)
  then show "decode_msb (map filled (format_06b v)) = v"
    using assms by (simp add: decode_msb_zeros decode_bin_nat)
qed

text \<open>
  C4: for every valid time the binary clock gives exactly 8 lines, the lines 1, 4 and 7
  (at the indices 0, 3 and 6) hold 6 dots each, and reading the dots as a binary number,
  most significant bit first, gives \<open>h mod 24\<close>, \<open>m\<close> and \<open>s\<close>.
\<close>

theorem binary_clock_decodes:
  assumes "valid_time h m s"
  shows "length (draw_binary_clock h m s) = 8
         \<and> length (dots (draw_binary_clock h m s ! 0)) = 6
         \<and> decode_msb (dots (draw_binary_clock h m s ! 0)) = h mod 24
         \<and> length (dots (draw_binary_clock h m s ! 3)) = 6
         \<and> decode_msb (dots (draw_binary_clock h m s ! 3)) = m
         \<and> length (dots (draw_binary_clock h m s ! 6)) = 6
         \<and> decode_msb (dots (draw_binary_clock h m s ! 6)) = s"
proof -
  have h: "0 \<le> h mod 24" "h mod 24 \<le> 63"
    using assms by (simp_all add: valid_time_def)
  have m: "0 \<le> m" "m \<le> 63" and s: "0 \<le> s" "s \<le> 63"
    using assms by (simp_all add: valid_time_def)
  show ?thesis
    using bits_6 [OF h] bits_6 [OF m] bits_6 [OF s]
    by (simp add: binary_lines dots_append dots_label dots_concat_dot)
qed

theorem binary_clock_decodes_witness:
  "valid_time 23 59 7
   \<and> decode_msb (dots (draw_binary_clock 23 59 7 ! 0)) = 23
   \<and> decode_msb (dots (draw_binary_clock 23 59 7 ! 3)) = 59
   \<and> decode_msb (dots (draw_binary_clock 23 59 7 ! 6)) = 7"
  using binary_clock_decodes [of 23 59 7] by (simp add: valid_time_def)

subsection \<open>The digital clock\<close>

lemmas glyph_defs = glyph_0_def glyph_1_def glyph_2_def glyph_3_def glyph_4_def glyph_5_def
  glyph_6_def glyph_7_def glyph_8_def glyph_9_def glyph_colon_def

lemma length_digits_get: "length (digits_get char) = 6"
  by (simp add: digits_get_def digits_def glyph_defs)

lemma add_char_lines_eq:
  "i + length char_lines \<le> length lines \<Longrightarrow>
   add_char_lines lines i char_lines =
     Inr (map (\<lambda>j. if i \<le> j \<and> j < i + length char_lines
                     then lines ! j @ char_lines ! (j - i) @ ascii ''  '' else lines ! j)
            [0..<length lines])"
proof (induction char_lines arbitrary: lines i)
  case Nil
  have "(\<lambda>j. if i \<le> j \<and> j < i + length ([] :: pystr list)
               then lines ! j @ [] ! (j - i) @ ascii ''  '' else lines ! j) = (\<lambda>j. lines ! j)"
    by (rule ext) auto
  then show ?case by (simp only: add_char_lines.simps map_nth)
next
  case (Cons line char_lines)
  let ?lines = "lines[i := lines ! i @ line @ ascii ''  '']"
  have "add_char_lines lines i (line # char_lines) = add_char_lines ?lines (Suc i) char_lines"
    using Cons.prems by simp
  also have "\<dots> = Inr (map (\<lambda>j. if Suc i \<le> j \<and> j < Suc i + length char_lines
                     then ?lines ! j @ char_lines ! (j - Suc i) @ ascii ''  '' else ?lines ! j)
            [0..<length ?lines])"
    using Cons.prems by (intro Cons.IH) simp
  also have "\<dots> = Inr (map (\<lambda>j. if i \<le> j \<and> j < i + length (line # char_lines)
                     then lines ! j @ (line # char_lines) ! (j - i) @ ascii ''  '' else lines ! j)
            [0..<length lines])"
    using Cons.prems by (auto simp: nth_list_update nth_Cons' Suc_diff_Suc)
  finally show ?case .
qed

lemma add_glyph:
  assumes "length lines = 6"
  shows "add_char_lines lines 0 (digits_get char) =
           Inr (map (\<lambda>j. lines ! j @ glyph_row j char @ ascii ''  '') [0..<6])"
proof -
  have "add_char_lines lines 0 (digits_get char) =
     Inr (map (\<lambda>j. if 0 \<le> j \<and> j < 0 + length (digits_get char)
                     then lines ! j @ digits_get char ! (j - 0) @ ascii ''  '' else lines ! j)
            [0..<length lines])"
    using assms by (intro add_char_lines_eq) (simp add: length_digits_get)
  also have "\<dots> = Inr (map (\<lambda>j. lines ! j @ glyph_row j char @ ascii ''  '') [0..<6])"
    using assms by (simp add: length_digits_get glyph_row_def)
  finally show ?thesis .
qed

lemma add_chars_eq:
  "length lines = 6 \<Longrightarrow>
   add_chars lines cs = Inr (map (\<lambda>j. lines ! j @ spaced_line cs j) [0..<6])"
proof (induction cs arbitrary: lines)
  case Nil
  have "map (\<lambda>j. lines ! j) [0..<length lines] = lines"
    by (rule map_nth)
  with Nil show ?case
    by (simp add: spaced_line_def)
next
  case (Cons char cs)
  let ?lines = "map (\<lambda>j. lines ! j @ glyph_row j char @ ascii ''  '') [0..<6]"
  have "add_chars lines (char # cs) = add_chars ?lines cs"
    using Cons.prems by (simp add: add_glyph)
  also have "\<dots> = Inr (map (\<lambda>j. ?lines ! j @ spaced_line cs j) [0..<6])"
    by (intro Cons.IH) simp
  also have "\<dots> = Inr (map (\<lambda>j. lines ! j @ spaced_line (char # cs) j) [0..<6])"
    by (simp add: spaced_line_def)
  finally show ?case .
qed

lemma digital_lines: "draw_digital_clock h m s = Inr (map (spaced_line (time_str h m s)) [0..<6])"
  by (simp add: draw_digital_clock_def add_chars_eq)

lemma spaced_joined: "cs \<noteq> [] \<Longrightarrow> spaced_line cs i = joined_line cs i @ ascii ''  ''"
proof (induction cs)
  case Nil
  then show ?case by simp
next
  case (Cons char cs)
  show ?case
  proof (cases cs)
    case Nil
    then show ?thesis by (simp add: spaced_line_def joined_line_def)
  next
    case (Cons c cs')
    with Cons.IH have "spaced_line cs i = joined_line cs i @ ascii ''  ''"
      by simp
    then show ?thesis
      using Cons by (simp add: spaced_line_def joined_line_def)
  qed
qed

text \<open>
  C3 as stated fails: the lines are not the glyph rows with two spaces between
  consecutive characters only. The source appends the two spaces after every glyph row,
  also after the last character.
\<close>

theorem digital_not_joined:
  "draw_digital_clock 0 0 0 \<noteq> Inr (map (joined_line (hhmmss 0 0 0)) [0..<6])"
proof
  have ne: "hhmmss 0 0 0 \<noteq> []"
    by (simp add: hhmmss_def)
  have v: "valid_time 0 0 0"
    by (simp add: valid_time_def)
  assume "draw_digital_clock 0 0 0 = Inr (map (joined_line (hhmmss 0 0 0)) [0..<6])"
  then have "map (spaced_line (hhmmss 0 0 0)) [0..<6] = map (joined_line (hhmmss 0 0 0)) [0..<6]"
    by (simp add: digital_lines time_str_valid [OF v])
  then have "spaced_line (hhmmss 0 0 0) 0 = joined_line (hhmmss 0 0 0) 0"
    by simp
  then show False
    by (simp add: spaced_joined [OF ne] ascii_def)
qed

text \<open>
  C3, amended: for every valid time the digital clock gives exactly 6 lines, where line
  \<open>i\<close> is the concatenation, over the characters of the zero-padded \<open>HH:MM:SS\<close> in
  order, of row \<open>i\<close> of the glyph of the character followed by two spaces; that is the
  line with a two-space separator between consecutive characters, and two more spaces
  after the last character.
\<close>

theorem digital_clock_lines:
  assumes "valid_time h m s"
  shows "draw_digital_clock h m s = Inr (map (spaced_line (hhmmss h m s)) [0..<6])
         \<and> length (map (spaced_line (hhmmss h m s)) [0..<6]) = 6
         \<and> (\<forall>i. spaced_line (hhmmss h m s) i = joined_line (hhmmss h m s) i @ ascii ''  '')"
proof -
  have "hhmmss h m s \<noteq> []"
    by (simp add: hhmmss_def)
  then show ?thesis
    using assms by (simp add: digital_lines time_str_valid spaced_joined)
qed

theorem digital_clock_lines_witness:
  "valid_time 12 34 56
   \<and> draw_digital_clock 12 34 56 = Inr (map (spaced_line (ascii ''12:34:56'')) [0..<6])"
  using digital_clock_lines [of 12 34 56]
  by (simp add: valid_time_def hhmmss_def two_digits_def ascii_def digit_def)

subsection \<open>Style selection and the display loop\<close>

text \<open>
  C7: from every style index 0 to 3, the right arrow (NextStyle) followed by the left
  arrow (PreviousStyle) gives the state back, and so does the right arrow as many times as
  there are styles, which is 4.
\<close>

theorem style_cycle_round_trip:
  assumes "0 \<le> current_style st" "current_style st \<le> 3"
  shows "handle_input (handle_input st KEY_RIGHT) KEY_LEFT = st
         \<and> length styles = 4
         \<and> repeat (length styles) (\<lambda>self. handle_input self KEY_RIGHT) st = st"
proof -
  have len: "length styles = 4"
    by (simp add: styles_def)
  have right: "handle_input self KEY_RIGHT = self\<lparr>current_style := (current_style self + 1) mod 4\<rparr>"
    for self
    by (simp add: handle_input_def len KEY_LEFT_def KEY_RIGHT_def)
  have left: "handle_input self KEY_LEFT = self\<lparr>current_style := (current_style self - 1) mod 4\<rparr>"
    for self
    by (simp add: handle_input_def len KEY_LEFT_def KEY_RIGHT_def)
  have a: "((current_style st + 1) mod 4 - 1) mod 4 = current_style st"
    using assms by presburger
  have b: "((((current_style st + 1) mod 4 + 1) mod 4 + 1) mod 4 + 1) mod 4 = current_style st"
    using assms by presburger
  have rt: "handle_input (handle_input st KEY_RIGHT) KEY_LEFT = st"
    by (simp add: right left a)
  have cyc: "repeat 4 (\<lambda>self. handle_input self KEY_RIGHT) st = st"
    by (simp add: numeral_eq_Suc right b)
  show ?thesis
    using rt cyc by (simp add: len)
qed

theorem style_cycle_round_trip_witness:
  "handle_input (handle_input init KEY_RIGHT) KEY_LEFT = init
   \<and> repeat (length styles) (\<lambda>self. handle_input self KEY_RIGHT) init = init"
  using style_cycle_round_trip [of init] by (simp add: init_def styles_def)

lemma run_loop_stopped: "\<not> running self \<Longrightarrow> run_loop self envs = Some ([], Stopped self)"
  by (simp add: run_loop.simps)

lemma handle_input_quit:
  "key = ord CHR ''q'' \<or> key = ord CHR ''Q'' \<Longrightarrow> handle_input self key = self\<lparr>running := False\<rparr>"
  by (auto simp: handle_input_def ord_def KEY_LEFT_def KEY_RIGHT_def)

lemma tick_state: "snd (tick self env) = Inr self' \<Longrightarrow> self' = handle_input self (getch env)"
  by (auto simp: tick_def split: sum.splits)

text \<open>
  C8: in every state with \<open>running\<close> true the key \<open>q\<close> or \<open>Q\<close> sets \<open>running\<close> to
  false; the loop started in the state after it runs no tick, whatever comes next; and a
  loop whose first tick reads the key runs that one tick and no other, and ends with
  \<open>running\<close> false (or with the exception of that tick).
\<close>

theorem quit_stops_loop:
  assumes "running self" "key = ord CHR ''q'' \<or> key = ord CHR ''Q''"
  shows "running (handle_input self key) = False
         \<and> run_loop (handle_input self key) envs = Some ([], Stopped (handle_input self key))
         \<and> (getch env = key \<longrightarrow>
              run_loop self (env # envs) =
                Some ([fst (tick self env)],
                      case snd (tick self env) of
                        Inl e \<Rightarrow> Raised e
                      | Inr self' \<Rightarrow> Stopped (self\<lparr>running := False\<rparr>)))"
proof -
  have q: "handle_input self key = self\<lparr>running := False\<rparr>"
    using assms(2) by (rule handle_input_quit)
  have "run_loop self (env # envs) =
                Some ([fst (tick self env)],
                      case snd (tick self env) of
                        Inl e \<Rightarrow> Raised e
                      | Inr self' \<Rightarrow> Stopped (self\<lparr>running := False\<rparr>))"
    if "getch env = key"
  proof -
    obtain ops r where t: "tick self env = (ops, r)"
      by (cases "tick self env")
    show ?thesis
    proof (cases r)
      case (Inl e)
      then show ?thesis
        using assms(1) t by (simp add: run_loop.simps [of self])
    next
      case (Inr self')
      have "self' = self\<lparr>running := False\<rparr>"
        using tick_state [of self env self'] t Inr that q by simp
      then show ?thesis
        using assms(1) t Inr by (simp add: run_loop.simps [of self] run_loop_stopped)
    qed
  qed
  then show ?thesis
    using q by (simp add: run_loop_stopped)
qed

theorem quit_stops_loop_witness:
  "running init
   \<and> run_loop (handle_input init 113) [\<lparr>now = (12, 0, 0), maxyx = (24, 80), getch = -1\<rparr>]
       = Some ([], Stopped (init\<lparr>running := False\<rparr>))
   \<and> map_option (\<lambda>(frames, e). (length frames, e))
        (run_loop init [\<lparr>now = (12, 0, 0), maxyx = (24, 80), getch = 113\<rparr>,
                        \<lparr>now = (12, 0, 1), maxyx = (24, 80), getch = -1\<rparr>])
       = Some (1, Stopped (init\<lparr>running := False\<rparr>))"
  using quit_stops_loop [of init 113 "[\<lparr>now = (12, 0, 0), maxyx = (24, 80), getch = -1\<rparr>]"
      "\<lparr>now = (12, 0, 0), maxyx = (24, 80), getch = 113\<rparr>"]
    quit_stops_loop [of init 113 "[\<lparr>now = (12, 0, 1), maxyx = (24, 80), getch = -1\<rparr>]"
      "\<lparr>now = (12, 0, 0), maxyx = (24, 80), getch = 113\<rparr>"]
  by (simp add: init_def ord_def handle_input_quit tick_def get_clock_display_def py_index_def
      styles_def ascii_def digital_lines)

end
